theory Spec2Isabelle
  imports Main
begin

section \<open>Python and editor values\<close>

text \<open>
  The plugin is Python code driven by the editor. Positions are Python integers
  (\<open>int\<close>). A character is modelled as a code point below 256 (\<open>char\<close>), a Python
  string as a \<open>string\<close>. Exceptions are values: a function of the source that can raise
  returns \<open>py_error + 'a\<close>, with \<open>Inl\<close> for the exception.
\<close>

datatype py_error = IndexError | TypeError

text \<open>\<open>s[i]\<close> on a Python string: a negative index counts from the end, an index out
  of range raises \<open>IndexError\<close>.\<close>

definition str_index :: "string \<Rightarrow> int \<Rightarrow> py_error + char" where
  "str_index s i =
     (if 0 \<le> i \<and> i < int (length s) then Inr (s ! nat i)
      else if i < 0 \<and> - int (length s) \<le> i then Inr (s ! nat (int (length s) + i))
      else Inl IndexError)"

text \<open>\<open>sublime.Region(a, b)\<close>: \<open>begin()\<close> is the smaller end, \<open>end()\<close> the larger,
  \<open>contains(p)\<close> includes both ends, \<open>empty()\<close> compares the two ends.\<close>

datatype Region = Region (reg_a: int) (reg_b: int)

definition region_begin :: "Region \<Rightarrow> int" where
  "region_begin r = min (reg_a r) (reg_b r)"

definition region_end :: "Region \<Rightarrow> int" where
  "region_end r = max (reg_a r) (reg_b r)"

definition region_contains :: "Region \<Rightarrow> int \<Rightarrow> bool" where
  "region_contains r p = (region_begin r \<le> p \<and> p \<le> region_end r)"

definition region_empty :: "Region \<Rightarrow> bool" where
  "region_empty r = (reg_a r = reg_b r)"

text \<open>The value the tracker keeps in its \<open>abbreviation\<close> attribute when it is not
  \<open>None\<close>: a dictionary with the key \<open>'abbr'\<close> (the raw text handed to the grammar) and,
  when the grammar rejected the text, the key \<open>'error'\<close>. The code under study reads
  only these two keys. A falsy value (\<open>None\<close> or an empty dictionary) is \<open>None\<close> here.\<close>

record parsed_abbreviation =
  abbr :: string
  error :: "string option"

text \<open>\<open>tracker.RegionTracker\<close>: the attributes the code reads. \<open>'cfg\<close> is the opaque
  options bag; \<open>config\<close> is \<open>None\<close> when the tracker was started without one.\<close>

record 'cfg RegionTracker =
  region :: Region
  trk_abbreviation :: "parsed_abbreviation option"
  forced :: bool
  offset :: int
  config :: "'cfg option"
  preview_visible :: bool

text \<open>One view of the editor together with the tracker module's registry (a dictionary
  from view ids to trackers) and the region the tracker module marks in the view.\<close>

record 'cfg editor =
  view_id :: nat
  is_widget :: bool
  content :: string
  sel :: "Region list"
  tracker_cache :: "nat \<rightharpoonup> 'cfg RegionTracker"
  marked :: "Region option"

text \<open>The state of \<open>AbbreviationMarkerListener\<close>.\<close>

record listener =
  last_pos_tracker :: "nat \<rightharpoonup> int"
  pending_completions_request :: bool

text \<open>What \<open>emmet.extract_abbreviation\<close> finds: the attributes \<open>start\<close>, \<open>end\<close> and
  \<open>location\<close> of the extracted abbreviation.\<close>

datatype Extracted = Extracted (ex_start: int) (ex_end: int) (ex_location: int)

text \<open>The collaborators that are not part of the sources, as parameters: the constant
  \<open>emmet.JSX_PREFIX\<close>, the settings \<open>auto_mark\<close> and \<open>context_size_limit\<close>, the syntax
  classifier, the grammar library and, as \<open>reconcile\<close>, the tracker that the tracker
  module's edit reconciler computes for the view after an edit (none when it gave the
  tracker up).\<close>

record 'cfg env =
  JSX_PREFIX :: string
  auto_mark :: bool
  context_size_limit :: int
  in_activation_scope :: "'cfg editor \<Rightarrow> int \<Rightarrow> bool"
  is_jsx_at :: "'cfg editor \<Rightarrow> int \<Rightarrow> bool"
  get_options :: "'cfg editor \<Rightarrow> int \<Rightarrow> bool \<Rightarrow> 'cfg"
  parse_abbreviation :: "string \<Rightarrow> parsed_abbreviation option"
  extract_abbreviation :: "'cfg editor \<Rightarrow> int \<Rightarrow> 'cfg \<Rightarrow> Extracted option"
  has_context :: "'cfg \<Rightarrow> bool"
  attach_context :: "'cfg editor \<Rightarrow> int \<Rightarrow> 'cfg \<Rightarrow> 'cfg"
  expand :: "string \<Rightarrow> 'cfg \<Rightarrow> string"
  reconcile :: "'cfg editor \<Rightarrow> 'cfg RegionTracker option"

text \<open>\<open>view.size()\<close> and \<open>view.substr(region)\<close>; the editor clips the region to the
  buffer.\<close>

definition view_size :: "'cfg editor \<Rightarrow> int" where
  "view_size view = int (length (content view))"

definition substr :: "'cfg editor \<Rightarrow> Region \<Rightarrow> string" where
  "substr view r =
     drop (nat (region_begin r)) (take (nat (region_end r)) (content view))"

section \<open>The tracker module, from its specification\<close>

text \<open>Modelled from the spec: \<open>tracker.get_tracker\<close>, which is not part of the sources.
  It returns the active tracker of the view or none, with no side effect.\<close>

definition get_tracker :: "'cfg editor \<Rightarrow> 'cfg RegionTracker option" where
  "get_tracker view = tracker_cache view (view_id view)"

text \<open>Modelled from the spec: \<open>tracker.stop_tracking\<close>, which is not part of the sources.
  It removes the tracker from the registry and clears the persistent span marker; it
  does nothing else, and nothing when there is no tracker.\<close>

definition stop_tracking :: "'cfg editor \<Rightarrow> 'cfg editor" where
  "stop_tracking view =
     view\<lparr>tracker_cache := (tracker_cache view)(view_id view := None), marked := None\<rparr>"

text \<open>Modelled from the spec: \<open>tracker.start_tracking\<close>, which is not part of the
  sources. It creates and registers a new tracker for the view, replacing any existing
  one, marks the span, and parses the span's text without its first \<open>offset\<close>
  characters. It returns the tracker.\<close>

definition start_tracking ::
  "'cfg env \<Rightarrow> 'cfg editor \<Rightarrow> int \<Rightarrow> int \<Rightarrow> bool \<Rightarrow> int \<Rightarrow> 'cfg option
     \<Rightarrow> 'cfg RegionTracker \<times> 'cfg editor" where
  "start_tracking env view start end' is_forced offset' cfg =
     (let trk = \<lparr>region = Region start end',
                 trk_abbreviation =
                   parse_abbreviation env (substr view (Region (start + offset') end')),
                 forced = is_forced, offset = offset', config = cfg,
                 preview_visible = False\<rparr>
      in (trk, view\<lparr>tracker_cache := (tracker_cache view)(view_id view \<mapsto> trk),
                    marked := Some (Region start end')\<rparr>))"

text \<open>Modelled from the spec: \<open>RegionTracker.show_preview\<close>, which is not part of the
  sources. The tracker object is the one the registry holds, so the flag is set there.\<close>

definition show_preview :: "'cfg editor \<Rightarrow> 'cfg editor" where
  "show_preview view =
     (case get_tracker view of
        None \<Rightarrow> view
      | Some trk \<Rightarrow>
          view\<lparr>tracker_cache :=
                 (tracker_cache view)(view_id view \<mapsto> trk\<lparr>preview_visible := True\<rparr>)\<rparr>)"



text \<open>Modelled from the spec: \<open>utils.replace_with_snippet\<close>, which is not part of the
  sources. It replaces the text of the region with the snippet.\<close>

definition replace_with_snippet :: "'cfg editor \<Rightarrow> Region \<Rightarrow> string \<Rightarrow> 'cfg editor" where
  "replace_with_snippet view r snippet =
     view\<lparr>content := take (nat (region_begin r)) (content view) @ snippet
                        @ drop (nat (region_end r)) (content view)\<rparr>"

section \<open>abbreviation.py\<close>

subsection \<open>Module constants\<close>

text \<open>\<open>pairs = {'{': '}', '[': ']', '(': ')'}\<close>, in insertion order.\<close>

definition pairs :: "(char \<times> char) list" where
  "pairs = [(CHR ''{'', CHR ''}''), (CHR ''['', CHR '']''), (CHR ''('', CHR '')'')]"

definition is_ascii_letter :: "char \<Rightarrow> bool" where
  "is_ascii_letter c =
     (let n = (of_char c :: nat) in (97 \<le> n \<and> n \<le> 122) \<or> (65 \<le> n \<and> n \<le> 90))"

text \<open>\<open>\s\<close> in a pattern over \<open>str\<close>: the Unicode white space, which below 256 is
  \<open>\t \n \v \f \r\<close>, the separators 28 to 31, the space, 133 and 160.\<close>

definition is_whitespace :: "char \<Rightarrow> bool" where
  "is_whitespace c =
     (let n = (of_char c :: nat) in (9 \<le> n \<and> n \<le> 13) \<or> (28 \<le> n \<and> n \<le> 32) \<or> n = 133 \<or> n = 160)"

text \<open>The class \<open>[a-zA-Z.#\[\(]\<close> of \<open>re_jsx_abbr_start\<close>.\<close>

definition jsx_abbr_start_char :: "char \<Rightarrow> bool" where
  "jsx_abbr_start_char c = (is_ascii_letter c \<or> c \<in> set ''.#[('')"

text \<open>The classes \<open>[\s>;"\']\<close> and \<open>[a-zA-Z.#!@\[\(]\<close> of \<open>re_word_bound\<close>.\<close>

definition word_bound_char :: "char \<Rightarrow> bool" where
  "word_bound_char c = (is_whitespace c \<or> c \<in> set [CHR ''>'', CHR '';'', CHR 0x22, CHR 0x27])"

definition abbr_start_char :: "char \<Rightarrow> bool" where
  "abbr_start_char c = (is_ascii_letter c \<or> c \<in> set ''.#!@[('')"

text \<open>\<open>$\<close> without the MULTILINE flag matches at the end of the string and also just before
  a line feed that is the last character of the string.\<close>

definition at_dollar :: "string \<Rightarrow> bool" where
  "at_dollar rest = (rest = [] \<or> rest = [CHR 0x0A])"

text \<open>\<open>re_jsx_abbr_start.match(s)\<close> for \<open>^[a-zA-Z.#\[\(]$\<close>.\<close>

definition re_jsx_abbr_start_match :: "string \<Rightarrow> bool" where
  "re_jsx_abbr_start_match s =
     (case s of [] \<Rightarrow> False | c # rest \<Rightarrow> jsx_abbr_start_char c \<and> at_dollar rest)"

text \<open>\<open>re_word_bound.match(s)\<close> for \<open>^[\s>;"\']?[a-zA-Z.#!@\[\(]$\<close>: the optional
  boundary character is either taken or skipped.\<close>

definition re_word_bound_match :: "string \<Rightarrow> bool" where
  "re_word_bound_match s =
     (case s of
        [] \<Rightarrow> False
      | c # rest \<Rightarrow>
          (word_bound_char c \<and>
             (case rest of [] \<Rightarrow> False | d # rest' \<Rightarrow> abbr_start_char d \<and> at_dollar rest'))
          \<or> (abbr_start_char c \<and> at_dollar rest))"

subsection \<open>allow_tracking, is_enabled\<close>

definition is_enabled :: "'cfg env \<Rightarrow> 'cfg editor \<Rightarrow> bool" where
  "is_enabled env view = auto_mark env"

definition allow_tracking :: "'cfg env \<Rightarrow> 'cfg editor \<Rightarrow> int \<Rightarrow> bool" where
  "allow_tracking env view pos = (is_enabled env view \<and> in_activation_scope env view pos)"

subsection \<open>should_stop_tracking\<close>

text \<open>\<open>re.search(r'[\n\r]', s)\<close>.\<close>

definition has_line_break :: "string \<Rightarrow> bool" where
  "has_line_break s = (CHR 0x0A \<in> set s \<or> CHR 0x0D \<in> set s)"

text \<open>The \<open>while target_pos > start\<close> loop of \<open>should_stop_tracking\<close>: it reads
  \<open>abbr[target_pos - start - 1]\<close> and steps back while that character is one of
  \<open>pairs.values()\<close>.\<close>

function trailing_pairs_walk :: "string \<Rightarrow> int \<Rightarrow> int \<Rightarrow> py_error + int" where
  "trailing_pairs_walk ab start target_pos =
     (if target_pos > start then
        (case str_index ab (target_pos - start - 1) of
           Inl e \<Rightarrow> Inl e
         | Inr c \<Rightarrow>
             if c \<in> set (map snd pairs) then trailing_pairs_walk ab start (target_pos - 1)
             else Inr target_pos)
      else Inr target_pos)"
  by pat_completeness auto
termination
  by (relation "measure (\<lambda>(ab, start, target_pos). nat (target_pos - start))") auto

declare trailing_pairs_walk.simps [simp del]

definition should_stop_tracking :: "'cfg RegionTracker \<Rightarrow> int \<Rightarrow> py_error + bool" where
  "should_stop_tracking trk pos =
     (if forced trk then Inr False
      else
        (case trk_abbreviation trk of
           None \<Rightarrow> Inr True
         | Some ab \<Rightarrow>
             if has_line_break (abbr ab) then Inr True
             else if error ab \<noteq> None then
               (if region_end (region trk) = pos then Inr True
                else
                  (case trailing_pairs_walk (abbr ab) (region_begin (region trk))
                          (region_end (region trk)) of
                     Inl e \<Rightarrow> Inl e
                   | Inr target_pos \<Rightarrow> Inr (target_pos = pos)))
             else Inr False))"

subsection \<open>start_abbreviation_tracking\<close>

definition start_abbreviation_tracking ::
  "'cfg env \<Rightarrow> 'cfg editor \<Rightarrow> int \<Rightarrow> py_error + ('cfg RegionTracker option \<times> 'cfg editor)" where
  "start_abbreviation_tracking env view pos =
     (let prefix_region = Region (max 0 (pos - 2)) pos;
          prefix = substr view prefix_region;
          (start, offset') =
            (if is_jsx_at env view pos then
               (if length prefix = 2 \<and> [prefix ! 0] = JSX_PREFIX env
                     \<and> re_jsx_abbr_start_match [prefix ! 1]
                then (pos - 2, int (length (JSX_PREFIX env)))
                else (- 1, 0))
             else if re_word_bound_match prefix then (pos - 1, 0)
             else (- 1, 0))
      in if start \<ge> 0 then
           (case str_index prefix (- 1) of
              Inl e \<Rightarrow> Inl e
            | Inr last_ch \<Rightarrow>
                let end' =
                      (case map_of pairs last_ch of
                         None \<Rightarrow> pos
                       | Some closer \<Rightarrow>
                           if substr view (Region pos (min (pos + 1) (view_size view))) = [closer]
                           then pos + 1 else pos);
                    max_doc_size = context_size_limit env;
                    with_context = (max_doc_size > 0 \<and> view_size view < max_doc_size);
                    cfg = get_options env view start with_context
                in (case start_tracking env view start end' False offset' (Some cfg) of
                      (trk, view') \<Rightarrow> Inr (Some trk, view')))
         else Inr (None, view))"

subsection \<open>suggest_abbreviation_tracker\<close>

definition suggest_abbreviation_tracker ::
  "'cfg env \<Rightarrow> 'cfg editor \<Rightarrow> int \<Rightarrow> 'cfg RegionTracker option \<times> 'cfg editor" where
  "suggest_abbreviation_tracker env view pos =
     (if \<not> allow_tracking env view pos then (None, view)
      else
        (case (case get_tracker view of
                 None \<Rightarrow> (None, view)
               | Some t \<Rightarrow>
                   if \<not> region_contains (region t) pos then (None, stop_tracking view)
                   else (Some t, view)) of
           (Some t, view1) \<Rightarrow> (None, view1)
         | (None, view1) \<Rightarrow>
             let cfg = get_options env view1 pos True in
             (case extract_abbreviation env view1 pos cfg of
                None \<Rightarrow> (None, view1)
              | Some ab \<Rightarrow>
                  let offset' = ex_location ab - ex_start ab in
                  (case start_tracking env view1 (ex_start ab) (ex_end ab) False offset' (Some cfg) of
                     (trk, view2) \<Rightarrow> (Some trk, view2)))))"

subsection \<open>expand_abbreviation and the commands\<close>

text \<open>\<open>'context' not in trk.config\<close> raises \<open>TypeError\<close> when \<open>trk.config\<close> is \<open>None\<close>, and
  so does \<open>trk.abbreviation['abbr']\<close> when \<open>trk.abbreviation\<close> is \<open>None\<close>. \<open>has_context\<close> is
  the membership test on a configuration, \<open>attach_context\<close> is \<open>emmet.attach_context\<close>,
  which stores the context in the configuration.\<close>

definition expand_abbreviation ::
  "'cfg env \<Rightarrow> 'cfg editor \<Rightarrow> 'cfg RegionTracker \<Rightarrow> py_error + string" where
  "expand_abbreviation env view trk =
     (case config trk of
        None \<Rightarrow> Inl TypeError
      | Some cfg \<Rightarrow>
          (let cfg' = (if \<not> has_context env cfg
                       then attach_context env view (region_begin (region trk)) cfg
                       else cfg)
           in case trk_abbreviation trk of
                None \<Rightarrow> Inl TypeError
              | Some ab \<Rightarrow> Inr (expand env (abbr ab) cfg')))"

text \<open>\<open>EmmetExpandAbbreviation.run\<close>; \<open>caret\<close> is the result of \<open>utils.get_caret\<close>.\<close>

definition EmmetExpandAbbreviation_run ::
  "'cfg env \<Rightarrow> int \<Rightarrow> 'cfg editor \<Rightarrow> py_error + 'cfg editor" where
  "EmmetExpandAbbreviation_run env caret view =
     (case get_tracker view of
        None \<Rightarrow> Inr view
      | Some trk \<Rightarrow>
          if region_contains (region trk) caret then
            (case (case trk_abbreviation trk of
                     None \<Rightarrow> Inr view
                   | Some ab \<Rightarrow>
                       if error ab = None then
                         (case expand_abbreviation env view trk of
                            Inl e \<Rightarrow> Inl e
                          | Inr snippet \<Rightarrow> Inr (replace_with_snippet view (region trk) snippet))
                       else Inr view) of
               Inl e \<Rightarrow> Inl e
             | Inr view1 \<Rightarrow> Inr (stop_tracking view1))
          else Inr view)"

text \<open>\<open>EmmetEnterAbbreviation.run\<close>; \<open>self.view.sel()[0]\<close> raises when the view has no
  selection.\<close>

definition EmmetEnterAbbreviation_run ::
  "'cfg env \<Rightarrow> 'cfg editor \<Rightarrow> py_error + 'cfg editor" where
  "EmmetEnterAbbreviation_run env view =
     (let trk = get_tracker view;
          view1 = stop_tracking view
      in if (case trk of None \<Rightarrow> False | Some t \<Rightarrow> forced t) then Inr view1
         else
           (case sel view1 of
              [] \<Rightarrow> Inl IndexError
            | primary_sel # others \<Rightarrow>
                (case start_tracking env view1 (region_begin primary_sel)
                        (region_end primary_sel) True 0 None of
                   (trk', view2) \<Rightarrow>
                     if \<not> region_empty primary_sel then
                       Inr ((show_preview view2)
                              \<lparr>sel := [Region (region_end primary_sel) (region_end primary_sel)]\<rparr>)
                     else Inr view2)))"

subsection \<open>AbbreviationMarkerListener.on_modified\<close>

text \<open>Modelled from the spec: \<open>tracker.handle_change\<close>, which is not part of the sources.
  It stores the reconciled tracker in the registry and returns it, or stops the tracker
  and returns none.\<close>

definition handle_change ::
  "'cfg env \<Rightarrow> 'cfg editor \<Rightarrow> 'cfg RegionTracker option \<times> 'cfg editor" where
  "handle_change env view =
     (case reconcile env view of
        None \<Rightarrow> (None, stop_tracking view)
      | Some t \<Rightarrow>
          (Some t, view\<lparr>tracker_cache := (tracker_cache view)(view_id view \<mapsto> t),
                        marked := Some (region t)\<rparr>))"

text \<open>\<open>on_modified\<close> under its decorator \<open>main_view\<close>; \<open>pos\<close> is the result of
  \<open>utils.get_caret\<close>.\<close>

definition on_modified ::
  "'cfg env \<Rightarrow> int \<Rightarrow> listener \<Rightarrow> 'cfg editor \<Rightarrow> py_error + (listener \<times> 'cfg editor)" where
  "on_modified env pos self view =
     (if is_widget view then Inr (self, view)
      else
        (let key = view_id view;
             last_pos = last_pos_tracker self key
         in case handle_change env view of
              (trk, view1) \<Rightarrow>
                (case (if trk = None \<and> last_pos \<noteq> None \<and> last_pos = Some (pos - 1)
                            \<and> allow_tracking env view1 (the last_pos)
                       then start_abbreviation_tracking env view1 pos
                       else Inr (trk, view1)) of
                   Inl e \<Rightarrow> Inl e
                 | Inr (trk2, view2) \<Rightarrow>
                     (case (case trk2 of
                              None \<Rightarrow> Inr view2
                            | Some t \<Rightarrow>
                                (case should_stop_tracking t pos of
                                   Inl e \<Rightarrow> Inl e
                                 | Inr stop \<Rightarrow> Inr (if stop then stop_tracking view2 else view2))) of
                        Inl e \<Rightarrow> Inl e
                      | Inr view3 \<Rightarrow>
                          Inr (self\<lparr>last_pos_tracker := (last_pos_tracker self)(key \<mapsto> pos)\<rparr>,
                               view3)))))"

subsection \<open>The other handlers that touch the tracker\<close>






section \<open>The statements of the specification\<close>

text \<open>The closing bracket characters \<open>}\<close>, \<open>]\<close> and \<open>)\<close>, and the position reached from
  the end of a region by walking back over the maximal run of closing brackets that ends
  the text \<open>s\<close>.\<close>

definition closing_bracket :: "char \<Rightarrow> bool" where
  "closing_bracket c = (c = CHR ''}'' \<or> c = CHR '']'' \<or> c = CHR '')'')"

definition trailing_closers_start :: "Region \<Rightarrow> string \<Rightarrow> int" where
  "trailing_closers_start r s = region_end r - int (length (takeWhile closing_bracket (rev s)))"

text \<open>The stop decision for a tracker that is not forced, in the words of the
  specification: stop when the abbreviation is absent or its text has a line break, or
  when it is invalid and the caret is at the end of the region or at the start of the
  trailing run of closing brackets.\<close>

definition spec_should_stop :: "'cfg RegionTracker \<Rightarrow> int \<Rightarrow> bool" where
  "spec_should_stop trk pos =
     (case trk_abbreviation trk of
        None \<Rightarrow> True
      | Some ab \<Rightarrow>
          has_line_break (abbr ab) \<or>
          (error ab \<noteq> None \<and>
             (pos = region_end (region trk)
              \<or> pos = trailing_closers_start (region trk) (abbr ab))))"

text \<open>The two characters before \<open>pos\<close> are the JSX prefix marker followed by a character
  of \<open>[A-Za-z.#[(]\<close>.\<close>

definition jsx_prefix_before :: "'cfg env \<Rightarrow> 'cfg editor \<Rightarrow> int \<Rightarrow> bool" where
  "jsx_prefix_before env view pos =
     (2 \<le> pos \<and> JSX_PREFIX env = [content view ! nat (pos - 2)]
      \<and> jsx_abbr_start_char (content view ! nat (pos - 1)))"

text \<open>The character before \<open>pos\<close> is an abbreviation start character, and the one before
  it is a boundary character or there is none (start of the text).\<close>

definition word_bound_before :: "'cfg editor \<Rightarrow> int \<Rightarrow> bool" where
  "word_bound_before view pos =
     (1 \<le> pos \<and> abbr_start_char (content view ! nat (pos - 1))
      \<and> (pos = 1 \<or> word_bound_char (content view ! nat (pos - 2))))"

text \<open>The character before the caret is an opening bracket of \<open>pairs\<close> and the character
  after the caret is its closing bracket.\<close>

definition bracket_pair_around :: "'cfg editor \<Rightarrow> int \<Rightarrow> bool" where
  "bracket_pair_around view pos =
     (1 \<le> pos \<and> pos < view_size view
      \<and> (content view ! nat (pos - 1), content view ! nat pos) \<in> set pairs)"

text \<open>The condition under which \<open>start_abbreviation_tracking\<close> sets \<open>start\<close>: the JSX
  prefix rule in a JSX syntax, the match of \<open>re_word_bound\<close> elsewhere.\<close>

definition tracking_starts :: "'cfg env \<Rightarrow> 'cfg editor \<Rightarrow> int \<Rightarrow> bool" where
  "tracking_starts env view pos =
     (if is_jsx_at env view pos then jsx_prefix_before env view pos
      else re_word_bound_match (substr view (Region (max 0 (pos - 2)) pos)))"

text \<open>The view has a tracker and its region contains \<open>pos\<close>.\<close>

definition tracker_contains :: "'cfg editor \<Rightarrow> int \<Rightarrow> bool" where
  "tracker_contains view pos =
     (case get_tracker view of None \<Rightarrow> False | Some t \<Rightarrow> region_contains (region t) pos)"


section \<open>Sample inputs\<close>

text \<open>A non-JSX environment with the prefix marker \<open><\<close>, a grammar that accepts every
  non-empty text, and a reconciler that leaves the registered tracker as it is.\<close>

definition demo_env :: "unit env" where
  "demo_env =
     \<lparr>JSX_PREFIX = ''<'', auto_mark = True, context_size_limit = 0,
      in_activation_scope = (\<lambda>view pos. True), is_jsx_at = (\<lambda>view pos. False),
      get_options = (\<lambda>view pos with_context. ()),
      parse_abbreviation = (\<lambda>s. if s = [] then None else Some \<lparr>abbr = s, error = None\<rparr>),
      extract_abbreviation = (\<lambda>view pos cfg. None),
      has_context = (\<lambda>cfg. True), attach_context = (\<lambda>view pos cfg. cfg),
      expand = (\<lambda>s cfg. s), reconcile = get_tracker\<rparr>"

definition demo_tracker ::
  "Region \<Rightarrow> string \<Rightarrow> bool \<Rightarrow> bool \<Rightarrow> int \<Rightarrow> unit RegionTracker" where
  "demo_tracker r s invalid is_forced offset' =
     \<lparr>region = r,
      trk_abbreviation = Some \<lparr>abbr = s, error = (if invalid then Some ''error'' else None)\<rparr>,
      forced = is_forced, offset = offset', config = None, preview_visible = False\<rparr>"

definition demo_view :: "string \<Rightarrow> Region list \<Rightarrow> unit RegionTracker option \<Rightarrow> unit editor" where
  "demo_view s rs trk =
     \<lparr>view_id = 1, is_widget = False, content = s, sel = rs,
      tracker_cache = Map.empty(1 := trk), marked = map_option region trk\<rparr>"

definition demo_listener :: "int option \<Rightarrow> listener" where
  "demo_listener last_pos =
     \<lparr>last_pos_tracker = Map.empty(1 := last_pos), pending_completions_request = False\<rparr>"

section \<open>The registry\<close>

lemma get_tracker_stop_tracking [simp]: "get_tracker (stop_tracking view) = None"
  by (simp add: get_tracker_def stop_tracking_def)

lemma handle_change_tracker:
  "handle_change env view = (trk, view1) \<Longrightarrow>
     get_tracker view1 = trk \<and> trk = reconcile env view \<and> view_id view1 = view_id view"
  by (auto simp: handle_change_def get_tracker_def stop_tracking_def split: option.splits)

lemma demo_tracker_sel [simp]:
  "region (demo_tracker r s i f off) = r" "forced (demo_tracker r s i f off) = f"
  "offset (demo_tracker r s i f off) = off"
  "trk_abbreviation (demo_tracker r s i f off) =
     Some \<lparr>abbr = s, error = (if i then Some ''error'' else None)\<rparr>"
  by (simp_all add: demo_tracker_def)

lemma demo_view_sel [simp]:
  "view_id (demo_view s rs t) = 1" "\<not> is_widget (demo_view s rs t)"
  "content (demo_view s rs t) = s" "sel (demo_view s rs t) = rs"
  "get_tracker (demo_view s rs t) = t" "view_size (demo_view s rs t) = int (length s)"
  by (simp_all add: demo_view_def get_tracker_def view_size_def)

lemma stop_tracking_frame [simp]:
  "content (stop_tracking view) = content view" "sel (stop_tracking view) = sel view"
  "view_id (stop_tracking view) = view_id view"
  by (simp_all add: stop_tracking_def)

lemma start_tracking_result:
  "start_tracking env view start end' f off cfg = (trk, view') \<Longrightarrow>
     region trk = Region start end' \<and> forced trk = f \<and> offset trk = off \<and> config trk = cfg
     \<and> trk_abbreviation trk = parse_abbreviation env (substr view (Region (start + off) end'))
     \<and> \<not> preview_visible trk
     \<and> get_tracker view' = Some trk \<and> content view' = content view \<and> sel view' = sel view
     \<and> view_id view' = view_id view"
  by (auto simp: start_tracking_def get_tracker_def Let_def)

lemma get_tracker_show_preview:
  "get_tracker view = Some t \<Longrightarrow>
     get_tracker (show_preview view) = Some (t\<lparr>preview_visible := True\<rparr>)"
  by (simp add: show_preview_def get_tracker_def)

lemma get_tracker_sel_update [simp]: "get_tracker (view\<lparr>sel := rs\<rparr>) = get_tracker view"
  by (simp add: get_tracker_def)

section \<open>Forced trackers\<close>










section \<open>The stop decision\<close>

lemma pairs_values: "c \<in> set (map snd pairs) \<longleftrightarrow> closing_bracket c"
  by (auto simp: pairs_def closing_bracket_def)

lemma pairs_values_image: "c \<in> snd ` set pairs \<longleftrightarrow> closing_bracket c"
  using pairs_values [of c] by simp

lemma rev_take_Suc: "n < length xs \<Longrightarrow> rev (take (Suc n) xs) = xs ! n # rev (take n xs)"
  by (simp add: take_Suc_conv_app_nth)

text \<open>When the text is at least as long as the distance walked, the loop returns, and it
  stops at the start of the run of closing brackets that ends the walked part.\<close>

lemma trailing_pairs_walk_in_range:
  "target_pos - start \<le> int (length ab) \<Longrightarrow>
   trailing_pairs_walk ab start target_pos =
     Inr (target_pos - int (length (takeWhile closing_bracket
            (rev (take (nat (target_pos - start)) ab)))))"
proof (induction ab start target_pos rule: trailing_pairs_walk.induct)
  case (1 ab start target_pos)
  show ?case
  proof (cases "target_pos > start")
    case False
    then show ?thesis by (simp add: trailing_pairs_walk.simps [of ab start target_pos])
  next
    case True
    define n where "n = nat (target_pos - start - 1)"
    have n: "n < length ab" "nat (target_pos - start) = Suc n" "target_pos - start - 1 = int n"
      "nat (target_pos - 1 - start) = n"
      using True "1.prems" by (auto simp: n_def)
    have idx: "str_index ab (target_pos - start - 1) = Inr (ab ! n)"
      using n by (simp add: str_index_def)
    show ?thesis
    proof (cases "closing_bracket (ab ! n)")
      case c: True
      have "ab ! n \<in> set (map snd pairs)"
        using c by (simp only: pairs_values)
      from "1.IH" [OF True idx this] "1.prems" n
      have "trailing_pairs_walk ab start (target_pos - 1) =
              Inr (target_pos - 1 - int (length (takeWhile closing_bracket (rev (take n ab)))))"
        by simp
      then show ?thesis
        using True idx c n
        by (simp add: trailing_pairs_walk.simps [of ab start target_pos] pairs_values_image rev_take_Suc)
    next
      case c: False
      then show ?thesis
        using True idx n
        by (simp add: trailing_pairs_walk.simps [of ab start target_pos] pairs_values_image rev_take_Suc)
    qed
  qed
qed

text \<open>When the text is shorter than the region, the first read of the loop is out of
  range.\<close>

lemma trailing_pairs_walk_out_of_range:
  "start < target_pos \<Longrightarrow> int (length ab) < target_pos - start \<Longrightarrow>
   trailing_pairs_walk ab start target_pos = Inl IndexError"
  by (simp add: trailing_pairs_walk.simps [of ab start target_pos] str_index_def)

text \<open>For a tracker whose abbreviation text is as long as its region, the code decides
  as the specification says.\<close>

lemma should_stop_tracking_spec:
  assumes "\<not> forced trk"
    and "\<forall>ab. trk_abbreviation trk = Some ab \<longrightarrow>
           int (length (abbr ab)) = region_end (region trk) - region_begin (region trk)"
  shows "should_stop_tracking trk pos = Inr (spec_should_stop trk pos)"
proof (cases "trk_abbreviation trk")
  case None
  then show ?thesis using assms by (simp add: should_stop_tracking_def spec_should_stop_def)
next
  case (Some ab)
  with assms have len: "int (length (abbr ab)) = region_end (region trk) - region_begin (region trk)"
    by simp
  have "trailing_pairs_walk (abbr ab) (region_begin (region trk)) (region_end (region trk)) =
          Inr (trailing_closers_start (region trk) (abbr ab))"
    using trailing_pairs_walk_in_range [of "region_end (region trk)" "region_begin (region trk)" "abbr ab"] len
    by (simp add: trailing_closers_start_def)
  then show ?thesis
    using Some assms(1)
    by (auto simp: should_stop_tracking_def spec_should_stop_def)
qed

text \<open>For an invalid abbreviation text that is shorter than the region, with the caret
  not at the end of the region, the code raises.\<close>

lemma should_stop_tracking_short_text:
  assumes "\<not> forced trk" and "trk_abbreviation trk = Some ab"
    and "\<not> has_line_break (abbr ab)" and "error ab \<noteq> None"
    and "region_end (region trk) \<noteq> pos"
    and "int (length (abbr ab)) < region_end (region trk) - region_begin (region trk)"
  shows "should_stop_tracking trk pos = Inl IndexError"
proof -
  have "region_begin (region trk) < region_end (region trk)"
    using assms(6) by linarith
  then have "trailing_pairs_walk (abbr ab) (region_begin (region trk)) (region_end (region trk)) =
          Inl IndexError"
    using assms(6) by (rule trailing_pairs_walk_out_of_range)
  then show ?thesis using assms by (simp add: should_stop_tracking_def)
qed

text \<open>
  C2. For a tracker that is not forced the code does not always return a decision. The
  tracker over the region from 8 to 13 with the prefix of length 1 holds the invalid
  text \<open>d]iv\<close>, which is one character shorter than the region. With the caret at 11 the
  rule of the specification says to keep tracking (the caret is neither at the end of
  the region nor at the start of a trailing run of closing brackets); the code reads the
  text at index 4 and raises \<open>IndexError\<close>.
\<close>

theorem should_stop_tracking_offset_tracker_raises:
  "should_stop_tracking (demo_tracker (Region 8 13) ''d]iv'' True False 1) 11 = Inl IndexError \<and>
   spec_should_stop (demo_tracker (Region 8 13) ''d]iv'' True False 1) 11 = False"
  by (simp add: should_stop_tracking_def spec_should_stop_def has_line_break_def
      region_begin_def region_end_def trailing_pairs_walk.simps str_index_def
      trailing_closers_start_def closing_bracket_def)

section \<open>Starting a tracker\<close>

lemma drop_take_one:
  assumes "1 \<le> n" "n \<le> length xs"
  shows "drop (n - 1) (take n xs) = [xs ! (n - 1)]"
proof -
  obtain m where m: "n = Suc m" using assms(1) by (cases n) auto
  with assms(2) have "take n xs = take m xs @ [xs ! m]"
    by (simp add: take_Suc_conv_app_nth)
  with m assms(2) show ?thesis by simp
qed

lemma drop_take_two:
  assumes "2 \<le> n" "n \<le> length xs"
  shows "drop (n - 2) (take n xs) = [xs ! (n - 2), xs ! (n - 1)]"
proof -
  obtain m where m: "n = Suc (Suc m)" using assms(1) by (cases n; cases "n - 1") auto
  with assms(2) have "take n xs = take m xs @ [xs ! m, xs ! Suc m]"
    by (simp add: take_Suc_conv_app_nth)
  with m assms(2) show ?thesis by simp
qed

lemma prefix_two:
  assumes "2 \<le> pos" "pos \<le> view_size view"
  shows "substr view (Region (max 0 (pos - 2)) pos) =
           [content view ! nat (pos - 2), content view ! nat (pos - 1)]"
proof -
  have "nat (pos - 2) = nat pos - 2" "nat (pos - 1) = nat pos - 1" "2 \<le> nat pos"
    "nat pos \<le> length (content view)"
    using assms by (auto simp: view_size_def)
  then show ?thesis
    using assms drop_take_two [of "nat pos" "content view"]
    by (simp add: substr_def region_begin_def region_end_def)
qed

lemma prefix_one:
  assumes "pos = 1" "pos \<le> view_size view"
  shows "substr view (Region (max 0 (pos - 2)) pos) = [content view ! 0]"
  using assms drop_take_one [of 1 "content view"]
  by (simp add: substr_def region_begin_def region_end_def view_size_def)

lemma prefix_none:
  assumes "pos \<le> 0"
  shows "substr view (Region (max 0 (pos - 2)) pos) = []"
  using assms by (simp add: substr_def region_begin_def region_end_def)

lemma next_char:
  assumes "0 \<le> pos" "pos \<le> view_size view"
  shows "substr view (Region pos (min (pos + 1) (view_size view))) =
           (if pos < view_size view then [content view ! nat pos] else [])"
proof (cases "pos < view_size view")
  case True
  then have "nat (pos + 1) = Suc (nat pos)" "Suc (nat pos) \<le> length (content view)"
    using assms by (auto simp: view_size_def)
  then show ?thesis
    using True assms drop_take_one [of "Suc (nat pos)" "content view"]
    by (simp add: substr_def region_begin_def region_end_def min_def)
next
  case False
  then show ?thesis
    using assms by (simp add: substr_def region_begin_def region_end_def view_size_def min_def)
qed

lemma closer_case:
  "(case map_of pairs c of
      None \<Rightarrow> p
    | Some closer \<Rightarrow> if (if b then [x] else []) = [closer] then p + 1 else p) =
   (if b \<and> (c, x) \<in> set pairs then p + 1 else (p::int))"
  by (auto simp: pairs_def)

text \<open>With the caret inside the buffer, \<open>start_abbreviation_tracking\<close> never raises, and
  it calls \<open>start_tracking\<close> with these arguments exactly when \<open>tracking_starts\<close> holds.\<close>

lemma start_abbreviation_tracking_eq:
  assumes "0 \<le> pos" "pos \<le> view_size view"
  shows "start_abbreviation_tracking env view pos =
     (if tracking_starts env view pos then
        Inr (apfst Some
          (start_tracking env view
             (if is_jsx_at env view pos then pos - 2 else pos - 1)
             (if bracket_pair_around view pos then pos + 1 else pos)
             False
             (if is_jsx_at env view pos then int (length (JSX_PREFIX env)) else 0)
             (Some (get_options env view (if is_jsx_at env view pos then pos - 2 else pos - 1)
                (context_size_limit env > 0 \<and> view_size view < context_size_limit env)))))
      else Inr (None, view))"
proof -
  let ?prefix = "substr view (Region (max 0 (pos - 2)) pos)"
  let ?next = "substr view (Region pos (min (pos + 1) (view_size view)))"
  have nxt: "?next = (if pos < view_size view then [content view ! nat pos] else [])"
    using assms by (rule next_char)
  consider (zero) "pos = 0" | (one) "pos = 1" | (more) "2 \<le> pos"
    using assms(1) by linarith
  then show ?thesis
  proof cases
    case zero
    have p: "?prefix = []" using prefix_none [of pos view] zero by simp
    show ?thesis
      unfolding start_abbreviation_tracking_def tracking_starts_def Let_def p
      using zero
      by (simp add: jsx_prefix_before_def re_word_bound_match_def)
  next
    case one
    have p: "?prefix = [content view ! 0]" using prefix_one [of pos view] one assms(2) by simp
    show ?thesis
      unfolding start_abbreviation_tracking_def tracking_starts_def Let_def p nxt closer_case
      using one
      by (simp add: jsx_prefix_before_def str_index_def
          bracket_pair_around_def apfst_def map_prod_def split: prod.splits)
  next
    case more
    have p: "?prefix = [content view ! nat (pos - 2), content view ! nat (pos - 1)]"
      using more assms(2) by (rule prefix_two)
    show ?thesis
      unfolding start_abbreviation_tracking_def tracking_starts_def Let_def p nxt closer_case
      using more
      by (auto simp: jsx_prefix_before_def str_index_def
          re_jsx_abbr_start_match_def at_dollar_def
          bracket_pair_around_def apfst_def map_prod_def split: prod.splits)
  qed
qed



text \<open>
  C4. In a JSX syntax, with the caret inside the buffer, \<open>start_abbreviation_tracking\<close>
  creates a tracker if and only if the two characters before \<open>pos\<close> are the JSX prefix
  marker followed by a character of \<open>[A-Za-z.#[(]\<close>. The region of the created tracker
  begins at \<open>pos - 2\<close>, its offset is the length of the marker, and the text handed to the
  grammar begins after the marker.
\<close>

theorem jsx_tracking_start:
  assumes "is_jsx_at env view pos" and "0 \<le> pos" and "pos \<le> view_size view"
  shows "\<exists>trk view'. start_abbreviation_tracking env view pos = Inr (trk, view')
           \<and> ((trk \<noteq> None) = jsx_prefix_before env view pos)
           \<and> (case trk of
                 None \<Rightarrow> view' = view
               | Some t \<Rightarrow>
                   region_begin (region t) = pos - 2
                   \<and> offset t = int (length (JSX_PREFIX env))
                   \<and> trk_abbreviation t =
                       parse_abbreviation env (substr view (Region (pos - 1) (region_end (region t))))
                   \<and> get_tracker view' = Some t)"
proof (cases "jsx_prefix_before env view pos")
  case False
  then show ?thesis
    using assms by (simp add: start_abbreviation_tracking_eq tracking_starts_def)
next
  case True
  let ?e = "if bracket_pair_around view pos then pos + 1 else pos"
  let ?cfg = "Some (get_options env view (pos - 2)
                (context_size_limit env > 0 \<and> view_size view < context_size_limit env))"
  obtain t view' where st:
    "start_tracking env view (pos - 2) ?e False (int (length (JSX_PREFIX env))) ?cfg = (t, view')"
    by (cases "start_tracking env view (pos - 2) ?e False (int (length (JSX_PREFIX env))) ?cfg")
  have len: "int (length (JSX_PREFIX env)) = 1"
    using True by (simp add: jsx_prefix_before_def)
  have "start_abbreviation_tracking env view pos = Inr (Some t, view')"
    using assms True st by (simp add: start_abbreviation_tracking_eq tracking_starts_def)
  moreover have "region_begin (region t) = pos - 2" "region_end (region t) = ?e"
    using start_tracking_result [OF st] by (simp_all add: region_begin_def region_end_def)
  ultimately show ?thesis
    using True start_tracking_result [OF st] len by simp
qed

theorem jsx_tracking_start_witness:
  "is_jsx_at (demo_env\<lparr>is_jsx_at := (\<lambda>view pos. True)\<rparr>) (demo_view ''ab<d'' [Region 4 4] None) 4 \<and>
   (0::int) \<le> 4 \<and> 4 \<le> view_size (demo_view ''ab<d'' [Region 4 4] None) \<and>
   jsx_prefix_before (demo_env\<lparr>is_jsx_at := (\<lambda>view pos. True)\<rparr>)
     (demo_view ''ab<d'' [Region 4 4] None) 4 \<and>
   (\<exists>t view'.
      start_abbreviation_tracking (demo_env\<lparr>is_jsx_at := (\<lambda>view pos. True)\<rparr>)
        (demo_view ''ab<d'' [Region 4 4] None) 4 = Inr (Some t, view')
      \<and> region_begin (region t) = 2 \<and> offset t = 1
      \<and> trk_abbreviation t = Some \<lparr>abbr = ''d'', error = None\<rparr>
      \<and> get_tracker view' = Some t)"
proof -
  let ?E = "demo_env\<lparr>is_jsx_at := (\<lambda>view pos. True)\<rparr>"
  let ?V = "demo_view ''ab<d'' [Region 4 4] None"
  have j: "is_jsx_at ?E ?V 4" by simp
  have b: "(0::int) \<le> 4" "4 \<le> view_size ?V" by simp_all
  have p: "jsx_prefix_before ?E ?V 4"
    by (simp add: jsx_prefix_before_def demo_env_def jsx_abbr_start_char_def is_ascii_letter_def)
  have e: "JSX_PREFIX ?E = ''<''" "parse_abbreviation ?E ''d'' = Some \<lparr>abbr = ''d'', error = None\<rparr>"
    by (simp_all add: demo_env_def)
  from jsx_tracking_start [OF j b] p obtain t view' where
    r: "start_abbreviation_tracking ?E ?V 4 = Inr (Some t, view')"
       "region_begin (region t) = 4 - 2" "offset t = int (length (JSX_PREFIX ?E))"
       "trk_abbreviation t = parse_abbreviation ?E (substr ?V (Region (4 - 1) (region_end (region t))))"
       "get_tracker view' = Some t"
    by (auto split: option.splits)
  have "\<not> bracket_pair_around ?V 4"
    by (simp add: bracket_pair_around_def)
  with r(1) p have "region_end (region t) = 4"
    using start_abbreviation_tracking_eq [OF b, of ?E]
    by (auto simp: tracking_starts_def start_tracking_def Let_def region_end_def)
  then have "trk_abbreviation t = Some \<lparr>abbr = ''d'', error = None\<rparr>"
    using r(4) e by (simp add: substr_def region_begin_def region_end_def)
  with j b p r e show ?thesis by simp
qed

text \<open>Outside JSX, a tracker is created when the text before \<open>pos\<close> is an optional
  boundary character followed by an abbreviation start character, and also when an
  abbreviation start character is followed by a line feed that ends the two characters
  read: the \<open>$\<close> of \<open>re_word_bound\<close> matches before that line feed.\<close>

lemma word_bound_tracking_start:
  assumes "\<not> is_jsx_at env view pos" and "0 \<le> pos" and "pos \<le> view_size view"
  shows "\<exists>trk view'. start_abbreviation_tracking env view pos = Inr (trk, view')
           \<and> ((trk \<noteq> None) =
                (word_bound_before view pos
                 \<or> (2 \<le> pos \<and> abbr_start_char (content view ! nat (pos - 2))
                      \<and> content view ! nat (pos - 1) = CHR 0x0A)))
           \<and> (case trk of
                 None \<Rightarrow> view' = view
               | Some t \<Rightarrow>
                   region_begin (region t) = pos - 1 \<and> offset t = 0
                   \<and> get_tracker view' = Some t)"
proof -
  let ?prefix = "substr view (Region (max 0 (pos - 2)) pos)"
  let ?lf = "2 \<le> pos \<and> abbr_start_char (content view ! nat (pos - 2))
                      \<and> content view ! nat (pos - 1) = CHR 0x0A"
  define starts where "starts = (word_bound_before view pos \<or> ?lf)"
  have m: "re_word_bound_match ?prefix = starts"
  proof -
    consider (zero) "pos = 0" | (one) "pos = 1" | (more) "2 \<le> pos"
      using assms(2) by linarith
    then show ?thesis
    proof cases
      case zero
      have p: "?prefix = []" using prefix_none [of pos view] zero by simp
      show ?thesis unfolding p starts_def using zero
        by (simp add: re_word_bound_match_def word_bound_before_def)
    next
      case one
      have p: "?prefix = [content view ! 0]" using prefix_one [of pos view] one assms(3) by simp
      show ?thesis unfolding p starts_def using one
        by (simp add: re_word_bound_match_def word_bound_before_def at_dollar_def)
    next
      case more
      have p: "?prefix = [content view ! nat (pos - 2), content view ! nat (pos - 1)]"
        using more assms(3) by (rule prefix_two)
      show ?thesis unfolding p starts_def using more
        by (auto simp: re_word_bound_match_def word_bound_before_def at_dollar_def)
    qed
  qed
  show ?thesis
  proof (cases "re_word_bound_match ?prefix")
    case False
    then have "start_abbreviation_tracking env view pos = Inr (None, view)"
      using assms by (simp add: start_abbreviation_tracking_eq tracking_starts_def)
    moreover have "\<not> starts" using False m by simp
    ultimately show ?thesis by (simp add: starts_def)
  next
    case True
    let ?e = "if bracket_pair_around view pos then pos + 1 else pos"
    let ?cfg = "Some (get_options env view (pos - 1)
                  (context_size_limit env > 0 \<and> view_size view < context_size_limit env))"
    obtain t view' where st: "start_tracking env view (pos - 1) ?e False 0 ?cfg = (t, view')"
      by (cases "start_tracking env view (pos - 1) ?e False 0 ?cfg")
    have "start_abbreviation_tracking env view pos = Inr (Some t, view')"
      using assms True st by (simp add: start_abbreviation_tracking_eq tracking_starts_def)
    moreover have "region_begin (region t) = pos - 1"
      using start_tracking_result [OF st] by (simp add: region_begin_def)
    moreover have starts using True m by simp
    ultimately show ?thesis
      using start_tracking_result [OF st] by (simp add: starts_def)
  qed
qed

text \<open>
  C5. Outside JSX the code creates a tracker in a case the rule excludes. In the buffer
  \<open>and\<close> followed by a line feed, with the caret at 4 after the line feed, the two
  characters read are \<open>d\<close> and the line feed; \<open>re_word_bound\<close> matches them, and a
  tracker over the region from 3 to 4, which holds the line feed, is created, although
  the character before the caret is not an abbreviation start character.
\<close>

theorem word_bound_start_after_line_feed:
  "(\<exists>t view'.
      start_abbreviation_tracking demo_env (demo_view ''and\<newline>'' [Region 4 4] None) 4
        = Inr (Some t, view')
      \<and> region t = Region 3 4 \<and> get_tracker view' = Some t) \<and>
   word_bound_before (demo_view ''and\<newline>'' [Region 4 4] None) 4 = False \<and>
   abbr_start_char (content (demo_view ''and\<newline>'' [Region 4 4] None) ! 3) = False"
proof -
  let ?V = "demo_view ''and\<newline>'' [Region 4 4] None"
  have b: "(0::int) \<le> 4" "4 \<le> view_size ?V" by simp_all
  have n: "\<not> abbr_start_char (content ?V ! 3)"
    by (simp add: abbr_start_char_def is_ascii_letter_def)
  then have w: "\<not> word_bound_before ?V 4"
    by (simp add: word_bound_before_def)
  have "tracking_starts demo_env ?V 4"
    by (simp add: tracking_starts_def demo_env_def substr_def region_begin_def region_end_def
        re_word_bound_match_def at_dollar_def abbr_start_char_def is_ascii_letter_def)
  moreover have "\<not> bracket_pair_around ?V 4"
    by (simp add: bracket_pair_around_def)
  ultimately have "\<exists>t view'. start_abbreviation_tracking demo_env ?V 4 = Inr (Some t, view')
      \<and> region t = Region 3 4 \<and> get_tracker view' = Some t"
    using start_abbreviation_tracking_eq [OF b, of demo_env]
    by (simp add: start_tracking_def Let_def demo_env_def get_tracker_def)
  with n w show ?thesis by simp
qed

text \<open>
  C6. Whenever \<open>start_abbreviation_tracking\<close> starts a tracker, in either syntax, the end
  of its region is \<open>pos + 1\<close> if the character before the caret is an opening bracket of
  \<open>pairs\<close> and the character after the caret is its closing bracket, and \<open>pos\<close> otherwise.
\<close>

theorem bracket_swallow:
  assumes "0 \<le> pos" and "pos \<le> view_size view"
  shows "\<exists>trk view'. start_abbreviation_tracking env view pos = Inr (trk, view')
           \<and> ((trk \<noteq> None) = tracking_starts env view pos)
           \<and> (case trk of
                 None \<Rightarrow> True
               | Some t \<Rightarrow>
                   region_end (region t) = (if bracket_pair_around view pos then pos + 1 else pos))"
proof (cases "tracking_starts env view pos")
  case False
  then show ?thesis using assms by (simp add: start_abbreviation_tracking_eq)
next
  case True
  let ?s = "if is_jsx_at env view pos then pos - 2 else pos - 1"
  let ?e = "if bracket_pair_around view pos then pos + 1 else pos"
  let ?o = "if is_jsx_at env view pos then int (length (JSX_PREFIX env)) else 0"
  let ?cfg = "Some (get_options env view ?s
                (context_size_limit env > 0 \<and> view_size view < context_size_limit env))"
  obtain t view' where st: "start_tracking env view ?s ?e False ?o ?cfg = (t, view')"
    by (cases "start_tracking env view ?s ?e False ?o ?cfg")
  have "start_abbreviation_tracking env view pos = Inr (Some t, view')"
    using assms True st by (simp add: start_abbreviation_tracking_eq)
  moreover have "region_end (region t) = ?e"
    using start_tracking_result [OF st] by (simp add: region_end_def)
  ultimately show ?thesis using True by simp
qed

theorem bracket_swallow_witness:
  "(0::int) \<le> 1 \<and> 1 \<le> view_size (demo_view ''()'' [Region 1 1] None) \<and>
   tracking_starts demo_env (demo_view ''()'' [Region 1 1] None) 1 \<and>
   bracket_pair_around (demo_view ''()'' [Region 1 1] None) 1 \<and>
   (\<exists>t view'.
      start_abbreviation_tracking demo_env (demo_view ''()'' [Region 1 1] None) 1
        = Inr (Some t, view')
      \<and> region_end (region t) = 2)"
proof -
  let ?V = "demo_view ''()'' [Region 1 1] None"
  have b: "(0::int) \<le> 1" "1 \<le> view_size ?V" by simp_all
  have s: "tracking_starts demo_env ?V 1"
    by (simp add: tracking_starts_def demo_env_def substr_def region_begin_def region_end_def
        re_word_bound_match_def at_dollar_def abbr_start_char_def is_ascii_letter_def)
  have p: "bracket_pair_around ?V 1"
    by (simp add: bracket_pair_around_def pairs_def)
  from bracket_swallow [OF b, of demo_env] s p obtain t view' where
    "start_abbreviation_tracking demo_env ?V 1 = Inr (Some t, view')"
    "region_end (region t) = 2"
    by (auto split: option.splits)
  with b s p show ?thesis by blast
qed

section \<open>Suggesting a tracker\<close>

text \<open>
  C7, as amended. When tracking is not allowed at \<open>pos\<close>, \<open>suggest_abbreviation_tracker\<close>
  returns none and leaves the view and its tracker as they are. When tracking is allowed
  and there is no tracker whose region contains \<open>pos\<close>: a tracker that exists is stopped;
  then, if the extraction finds an abbreviation, a new tracker over the extracted range
  with offset \<open>location - start\<close> is started and returned, and if it finds nothing, no
  tracker is created and none is returned.
\<close>

theorem suggest_abbreviation_tracker_when_allowed:
  "(\<not> allow_tracking env view pos \<longrightarrow>
      suggest_abbreviation_tracker env view pos = (None, view)) \<and>
   (allow_tracking env view pos \<longrightarrow> \<not> tracker_contains view pos \<longrightarrow>
      (let view1 = (if get_tracker view = None then view else stop_tracking view) in
       get_tracker view1 = None \<and>
       (case extract_abbreviation env view1 pos (get_options env view1 pos True) of
          None \<Rightarrow> suggest_abbreviation_tracker env view pos = (None, view1)
        | Some ab \<Rightarrow>
            (\<exists>trk view2. suggest_abbreviation_tracker env view pos = (Some trk, view2)
               \<and> region trk = Region (ex_start ab) (ex_end ab)
               \<and> offset trk = ex_location ab - ex_start ab
               \<and> get_tracker view2 = Some trk))))"
proof (intro conjI impI)
  assume "\<not> allow_tracking env view pos"
  then show "suggest_abbreviation_tracker env view pos = (None, view)"
    by (simp add: suggest_abbreviation_tracker_def)
next
  assume allow: "allow_tracking env view pos" and out: "\<not> tracker_contains view pos"
  define view1 where "view1 = (if get_tracker view = None then view else stop_tracking view)"
  have none: "get_tracker view1 = None"
    by (simp add: view1_def)
  have step: "(case get_tracker view of
                 None \<Rightarrow> (None, view)
               | Some t \<Rightarrow>
                   if \<not> region_contains (region t) pos then (None, stop_tracking view)
                   else (Some t, view)) = (None, view1)"
    using out by (auto simp: view1_def tracker_contains_def split: option.splits)
  have "case extract_abbreviation env view1 pos (get_options env view1 pos True) of
          None \<Rightarrow> suggest_abbreviation_tracker env view pos = (None, view1)
        | Some ab \<Rightarrow>
            (\<exists>trk view2. suggest_abbreviation_tracker env view pos = (Some trk, view2)
               \<and> region trk = Region (ex_start ab) (ex_end ab)
               \<and> offset trk = ex_location ab - ex_start ab
               \<and> get_tracker view2 = Some trk)"
  proof (cases "extract_abbreviation env view1 pos (get_options env view1 pos True)")
    case None
    then show ?thesis
      using allow step by (simp add: suggest_abbreviation_tracker_def)
  next
    case (Some ab)
    obtain trk view2 where st:
      "start_tracking env view1 (ex_start ab) (ex_end ab) False (ex_location ab - ex_start ab)
         (Some (get_options env view1 pos True)) = (trk, view2)"
      by (cases "start_tracking env view1 (ex_start ab) (ex_end ab) False
                   (ex_location ab - ex_start ab) (Some (get_options env view1 pos True))")
    have "suggest_abbreviation_tracker env view pos = (Some trk, view2)"
      using allow step Some st by (simp add: suggest_abbreviation_tracker_def)
    then show ?thesis
      using Some start_tracking_result [OF st] by simp
  qed
  with none have "get_tracker view1 = None \<and>
       (case extract_abbreviation env view1 pos (get_options env view1 pos True) of
          None \<Rightarrow> suggest_abbreviation_tracker env view pos = (None, view1)
        | Some ab \<Rightarrow>
            (\<exists>trk view2. suggest_abbreviation_tracker env view pos = (Some trk, view2)
               \<and> region trk = Region (ex_start ab) (ex_end ab)
               \<and> offset trk = ex_location ab - ex_start ab
               \<and> get_tracker view2 = Some trk))"
    by simp
  then show "let view1 = (if get_tracker view = None then view else stop_tracking view) in
       get_tracker view1 = None \<and>
       (case extract_abbreviation env view1 pos (get_options env view1 pos True) of
          None \<Rightarrow> suggest_abbreviation_tracker env view pos = (None, view1)
        | Some ab \<Rightarrow>
            (\<exists>trk view2. suggest_abbreviation_tracker env view pos = (Some trk, view2)
               \<and> region trk = Region (ex_start ab) (ex_end ab)
               \<and> offset trk = ex_location ab - ex_start ab
               \<and> get_tracker view2 = Some trk))"
    unfolding view1_def Let_def .
qed

theorem suggest_abbreviation_tracker_when_allowed_witness:
  "\<not> allow_tracking (demo_env\<lparr>auto_mark := False\<rparr>)
       (demo_view ''div p'' [Region 5 5] (Some (demo_tracker (Region 0 3) ''div'' False False 0))) 5 \<and>
   suggest_abbreviation_tracker (demo_env\<lparr>auto_mark := False\<rparr>)
       (demo_view ''div p'' [Region 5 5] (Some (demo_tracker (Region 0 3) ''div'' False False 0))) 5
     = (None, demo_view ''div p'' [Region 5 5] (Some (demo_tracker (Region 0 3) ''div'' False False 0))) \<and>
   allow_tracking (demo_env\<lparr>extract_abbreviation := (\<lambda>view pos cfg. Some (Extracted 4 5 4))\<rparr>)
       (demo_view ''div p'' [Region 5 5] (Some (demo_tracker (Region 0 3) ''div'' False False 0))) 5 \<and>
   \<not> tracker_contains
       (demo_view ''div p'' [Region 5 5] (Some (demo_tracker (Region 0 3) ''div'' False False 0))) 5 \<and>
   (\<exists>trk view2.
      suggest_abbreviation_tracker
         (demo_env\<lparr>extract_abbreviation := (\<lambda>view pos cfg. Some (Extracted 4 5 4))\<rparr>)
         (demo_view ''div p'' [Region 5 5] (Some (demo_tracker (Region 0 3) ''div'' False False 0))) 5
        = (Some trk, view2)
      \<and> region trk = Region 4 5 \<and> offset trk = 0 \<and> get_tracker view2 = Some trk)"
proof -
  let ?V = "demo_view ''div p'' [Region 5 5] (Some (demo_tracker (Region 0 3) ''div'' False False 0))"
  let ?E0 = "demo_env\<lparr>auto_mark := False\<rparr>"
  let ?E1 = "demo_env\<lparr>extract_abbreviation := (\<lambda>view pos cfg. Some (Extracted 4 5 4))\<rparr>"
  have n: "\<not> allow_tracking ?E0 ?V 5"
    by (simp add: allow_tracking_def is_enabled_def)
  have a: "allow_tracking ?E1 ?V 5"
    by (simp add: allow_tracking_def is_enabled_def demo_env_def)
  have c: "\<not> tracker_contains ?V 5"
    by (simp add: tracker_contains_def region_contains_def region_begin_def region_end_def)
  from suggest_abbreviation_tracker_when_allowed [of ?E0 ?V 5] n
  have r0: "suggest_abbreviation_tracker ?E0 ?V 5 = (None, ?V)" by blast
  from suggest_abbreviation_tracker_when_allowed [of ?E1 ?V 5] a c
  have "\<exists>trk view2. suggest_abbreviation_tracker ?E1 ?V 5 = (Some trk, view2)
      \<and> region trk = Region 4 5 \<and> offset trk = 0 \<and> get_tracker view2 = Some trk"
    by (simp add: Let_def)
  with n a c r0 show ?thesis by blast
qed

text \<open>With \<open>auto_mark\<close> off, a tracker whose region does not contain \<open>pos\<close> is not
  stopped.\<close>

theorem suggest_abbreviation_tracker_not_allowed:
  "get_tracker (demo_view ''div p'' [Region 5 5] (Some (demo_tracker (Region 0 3) ''div'' False False 0)))
     = Some (demo_tracker (Region 0 3) ''div'' False False 0) \<and>
   \<not> region_contains (region (demo_tracker (Region 0 3) ''div'' False False 0)) 5 \<and>
   get_tracker (snd (suggest_abbreviation_tracker (demo_env\<lparr>auto_mark := False\<rparr>)
      (demo_view ''div p'' [Region 5 5] (Some (demo_tracker (Region 0 3) ''div'' False False 0))) 5))
     = Some (demo_tracker (Region 0 3) ''div'' False False 0)"
  by (simp add: suggest_abbreviation_tracker_def allow_tracking_def is_enabled_def demo_env_def
      region_contains_def region_begin_def region_end_def)

section \<open>The commands\<close>

text \<open>When the tracker's region contains the caret and the tracker has a configuration,
  the expand command returns and the tracker is stopped in every case. The text of the
  region is replaced by the expanded snippet when the abbreviation exists and has no
  error; otherwise the text of the view is unchanged.\<close>

lemma expand_command_with_config:
  assumes "get_tracker view = Some trk" and "region_contains (region trk) caret"
    and "config trk = Some cfg"
  shows "\<exists>view'. EmmetExpandAbbreviation_run env caret view = Inr view'
           \<and> get_tracker view' = None
           \<and> (case trk_abbreviation trk of
                 None \<Rightarrow> content view' = content view
               | Some ab \<Rightarrow>
                   if error ab = None then
                     (\<exists>snippet. expand_abbreviation env view trk = Inr snippet
                        \<and> content view' =
                            take (nat (region_begin (region trk))) (content view) @ snippet
                              @ drop (nat (region_end (region trk))) (content view))
                   else content view' = content view)"
  using assms
  by (auto simp: EmmetExpandAbbreviation_run_def expand_abbreviation_def Let_def
      replace_with_snippet_def stop_tracking_def get_tracker_def split: option.splits)

text \<open>Without a valid abbreviation the configuration is not read: the command returns,
  the tracker is stopped and the text is unchanged.\<close>

lemma expand_command_without_expansion:
  assumes "get_tracker view = Some trk" and "region_contains (region trk) caret"
    and "case trk_abbreviation trk of None \<Rightarrow> True | Some ab \<Rightarrow> error ab \<noteq> None"
  shows "EmmetExpandAbbreviation_run env caret view = Inr (stop_tracking view)"
  using assms
  by (auto simp: EmmetExpandAbbreviation_run_def split: option.splits)


text \<open>
  C10. The enter-abbreviation command stops the existing tracker. If that tracker was
  forced, nothing else happens. Otherwise a forced tracker over the primary selection is
  started; for a non-empty selection the preview is shown and the selection becomes the
  empty region at the selection's end.
\<close>

theorem enter_abbreviation_command:
  "(\<forall>t. get_tracker view = Some t \<longrightarrow> forced t \<longrightarrow>
       EmmetEnterAbbreviation_run env view = Inr (stop_tracking view)) \<and>
   (\<forall>primary_sel others.
       (case get_tracker view of None \<Rightarrow> True | Some t \<Rightarrow> \<not> forced t) \<longrightarrow>
       sel view = primary_sel # others \<longrightarrow>
       (\<exists>trk view'. EmmetEnterAbbreviation_run env view = Inr view'
          \<and> get_tracker view' = Some trk \<and> forced trk
          \<and> region trk = Region (region_begin primary_sel) (region_end primary_sel)
          \<and> (if region_empty primary_sel then sel view' = sel view
              else preview_visible trk
                   \<and> sel view' = [Region (region_end primary_sel) (region_end primary_sel)])))"
proof (intro conjI allI impI)
  fix t assume "get_tracker view = Some t" "forced t"
  then show "EmmetEnterAbbreviation_run env view = Inr (stop_tracking view)"
    by (simp add: EmmetEnterAbbreviation_run_def)
next
  fix primary_sel others
  assume nf: "case get_tracker view of None \<Rightarrow> True | Some t \<Rightarrow> \<not> forced t"
    and s: "sel view = primary_sel # others"
  obtain trk view2 where st:
    "start_tracking env (stop_tracking view) (region_begin primary_sel) (region_end primary_sel)
       True 0 None = (trk, view2)"
    by (cases "start_tracking env (stop_tracking view) (region_begin primary_sel)
                 (region_end primary_sel) True 0 None")
  note r = start_tracking_result [OF st]
  have toggle: "\<not> (case get_tracker view of None \<Rightarrow> False | Some t \<Rightarrow> forced t)"
    using nf by (simp split: option.splits)
  have run: "EmmetEnterAbbreviation_run env view =
      (if \<not> region_empty primary_sel then
         Inr ((show_preview view2)
                \<lparr>sel := [Region (region_end primary_sel) (region_end primary_sel)]\<rparr>)
       else Inr view2)"
    using toggle s st by (simp add: EmmetEnterAbbreviation_run_def Let_def)
  show "\<exists>trk view'. EmmetEnterAbbreviation_run env view = Inr view'
          \<and> get_tracker view' = Some trk \<and> forced trk
          \<and> region trk = Region (region_begin primary_sel) (region_end primary_sel)
          \<and> (if region_empty primary_sel then sel view' = sel view
              else preview_visible trk
                   \<and> sel view' = [Region (region_end primary_sel) (region_end primary_sel)])"
  proof (cases "region_empty primary_sel")
    case True
    then show ?thesis using run r by simp
  next
    case False
    have "get_tracker ((show_preview view2)
                \<lparr>sel := [Region (region_end primary_sel) (region_end primary_sel)]\<rparr>)
            = Some (trk\<lparr>preview_visible := True\<rparr>)"
      using r by (simp add: get_tracker_show_preview)
    then show ?thesis using False run r by simp
  qed
qed

theorem enter_abbreviation_command_witness:
  "get_tracker (demo_view ''ul>li'' [Region 5 5] (Some (demo_tracker (Region 0 5) ''ul>li'' False True 0)))
     = Some (demo_tracker (Region 0 5) ''ul>li'' False True 0) \<and>
   forced (demo_tracker (Region 0 5) ''ul>li'' False True 0) \<and>
   (\<exists>view'.
      EmmetEnterAbbreviation_run demo_env
        (demo_view ''ul>li'' [Region 5 5] (Some (demo_tracker (Region 0 5) ''ul>li'' False True 0)))
        = Inr view'
      \<and> get_tracker view' = None) \<and>
   sel (demo_view ''a ul>li'' [Region 7 2, Region 0 0] None) = Region 7 2 # [Region 0 0] \<and>
   get_tracker (demo_view ''a ul>li'' [Region 7 2, Region 0 0] None) = None \<and>
   \<not> region_empty (Region 7 2) \<and>
   (\<exists>trk view'.
      EmmetEnterAbbreviation_run demo_env (demo_view ''a ul>li'' [Region 7 2, Region 0 0] None)
        = Inr view'
      \<and> get_tracker view' = Some trk \<and> forced trk \<and> region trk = Region 2 7
      \<and> preview_visible trk \<and> sel view' = [Region 7 7])"
proof -
  let ?T = "demo_tracker (Region 0 5) ''ul>li'' False True 0"
  let ?V = "demo_view ''ul>li'' [Region 5 5] (Some ?T)"
  let ?W = "demo_view ''a ul>li'' [Region 7 2, Region 0 0] None"
  have g: "get_tracker ?V = Some ?T" "forced ?T" by simp_all
  have w: "sel ?W = Region 7 2 # [Region 0 0]" "get_tracker ?W = None" "\<not> region_empty (Region 7 2)"
    by (simp_all add: region_empty_def)
  from enter_abbreviation_command [of ?V demo_env] g
  have "EmmetEnterAbbreviation_run demo_env ?V = Inr (stop_tracking ?V)" by blast
  then have 1: "\<exists>view'. EmmetEnterAbbreviation_run demo_env ?V = Inr view' \<and> get_tracker view' = None"
    by simp
  have "case get_tracker ?W of None \<Rightarrow> True | Some t \<Rightarrow> \<not> forced t" by simp
  with enter_abbreviation_command [of ?W demo_env] w(1,3)
  have 2: "\<exists>trk view'. EmmetEnterAbbreviation_run demo_env ?W = Inr view'
      \<and> get_tracker view' = Some trk \<and> forced trk \<and> region trk = Region 2 7
      \<and> preview_visible trk \<and> sel view' = [Region 7 7]"
    by (simp add: region_begin_def region_end_def)
  from g w 1 2 show ?thesis by blast
qed

section \<open>The modification handler\<close>

text \<open>
  C9. When the recorded previous caret position is not \<open>pos - 1\<close> (or none is recorded),
  \<open>on_modified\<close> starts no tracker: if the reconciler returns none, the handler returns
  and the view has no tracker afterwards; and in any case a tracker that is registered
  after the handler is the one the reconciler returned.
\<close>

theorem on_modified_starts_only_after_single_insert:
  assumes "last_pos_tracker self (view_id view) \<noteq> Some (pos - 1)"
  shows "(reconcile env view = None \<longrightarrow>
            (\<exists>self' view'. on_modified env pos self view = Inr (self', view')
               \<and> get_tracker view' = (if is_widget view then get_tracker view else None))) \<and>
         (\<forall>self' view'. on_modified env pos self view = Inr (self', view') \<longrightarrow>
            \<not> is_widget view \<longrightarrow>
            get_tracker view' = None \<or> get_tracker view' = reconcile env view)"
proof -
  obtain t view1 where h: "handle_change env view = (t, view1)"
    by (cases "handle_change env view")
  note hc = handle_change_tracker [OF h]
  have no_start:
    "(if t = None \<and> last_pos_tracker self (view_id view) \<noteq> None
          \<and> last_pos_tracker self (view_id view) = Some (pos - 1)
          \<and> allow_tracking env view1 (the (last_pos_tracker self (view_id view)))
      then start_abbreviation_tracking env view1 pos else Inr (t, view1)) = Inr (t, view1)"
    using assms by simp
  have om: "\<not> is_widget view \<Longrightarrow> on_modified env pos self view =
     (case (case t of
              None \<Rightarrow> Inr view1
            | Some t' \<Rightarrow>
                (case should_stop_tracking t' pos of
                   Inl e \<Rightarrow> Inl e
                 | Inr stop \<Rightarrow> Inr (if stop then stop_tracking view1 else view1))) of
        Inl e \<Rightarrow> Inl e
      | Inr view3 \<Rightarrow>
          Inr (self\<lparr>last_pos_tracker := (last_pos_tracker self)(view_id view \<mapsto> pos)\<rparr>, view3))"
    unfolding on_modified_def Let_def h prod.case no_start by simp
  show ?thesis
  proof (cases "is_widget view")
    case True
    then show ?thesis by (simp add: on_modified_def)
  next
    case False
    show ?thesis
      using om [OF False] hc False
      by (auto split: option.splits sum.splits if_splits)
  qed
qed

theorem on_modified_starts_only_after_single_insert_witness:
  "last_pos_tracker (demo_listener None) (view_id (demo_view ''d'' [Region 1 1] None))
     \<noteq> Some (1 - 1) \<and>
   reconcile demo_env (demo_view ''d'' [Region 1 1] None) = None \<and>
   (\<exists>self' view'.
      on_modified demo_env 1 (demo_listener None) (demo_view ''d'' [Region 1 1] None)
        = Inr (self', view')
      \<and> get_tracker view' = None)"
proof -
  let ?V = "demo_view ''d'' [Region 1 1] None"
  have l: "last_pos_tracker (demo_listener None) (view_id ?V) \<noteq> Some (1 - 1)"
    by (simp add: demo_listener_def)
  have r: "reconcile demo_env ?V = None"
    by (simp add: demo_env_def)
  from on_modified_starts_only_after_single_insert [OF l, of demo_env] r
  have "\<exists>self' view'. on_modified demo_env 1 (demo_listener None) ?V = Inr (self', view')
      \<and> get_tracker view' = None"
    by simp
  with l r show ?thesis by blast
qed

text \<open>For comparison: with the previous caret position \<open>pos - 1\<close> recorded, the same
  edit starts a tracker.\<close>

lemma on_modified_starts_after_single_insert:
  "\<exists>self' view' t.
      on_modified demo_env 1 (demo_listener (Some 0)) (demo_view ''d'' [Region 1 1] None)
        = Inr (self', view')
      \<and> get_tracker view' = Some t \<and> region t = Region 0 1 \<and> \<not> forced t"
proof -
  let ?V = "demo_view ''d'' [Region 1 1] None"
  have h: "handle_change demo_env ?V = (None, stop_tracking ?V)"
    by (simp add: handle_change_def demo_env_def)
  have b: "(0::int) \<le> 1" "1 \<le> view_size (stop_tracking ?V)"
    by (simp_all add: view_size_def)
  have s: "tracking_starts demo_env (stop_tracking ?V) 1"
    by (simp add: tracking_starts_def demo_env_def substr_def region_begin_def region_end_def
        re_word_bound_match_def at_dollar_def abbr_start_char_def is_ascii_letter_def)
  have p: "\<not> bracket_pair_around (stop_tracking ?V) 1"
    by (simp add: bracket_pair_around_def view_size_def)
  have a: "allow_tracking demo_env (stop_tracking ?V) 0"
    by (simp add: allow_tracking_def is_enabled_def demo_env_def)
  obtain t view' where st: "start_tracking demo_env (stop_tracking ?V) 0 1 False 0
      (Some (get_options demo_env (stop_tracking ?V) 0
         (context_size_limit demo_env > 0 \<and> view_size (stop_tracking ?V) < context_size_limit demo_env)))
      = (t, view')"
    by (cases "start_tracking demo_env (stop_tracking ?V) 0 1 False 0
      (Some (get_options demo_env (stop_tracking ?V) 0
         (context_size_limit demo_env > 0 \<and> view_size (stop_tracking ?V) < context_size_limit demo_env)))")
  note r = start_tracking_result [OF st]
  have sa: "start_abbreviation_tracking demo_env (stop_tracking ?V) 1 = Inr (Some t, view')"
    using start_abbreviation_tracking_eq [OF b, of demo_env] s p st
    by (simp add: demo_env_def)
  have ab: "trk_abbreviation t = Some \<lparr>abbr = ''d'', error = None\<rparr>"
    using r by (simp add: demo_env_def substr_def region_begin_def region_end_def)
  have nf: "\<not> forced t" using r by simp
  have keep: "should_stop_tracking t 1 = Inr False"
    using nf ab by (simp add: should_stop_tracking_def has_line_break_def)
  have "on_modified demo_env 1 (demo_listener (Some 0)) ?V =
          Inr ((demo_listener (Some 0))
                 \<lparr>last_pos_tracker := (last_pos_tracker (demo_listener (Some 0)))(1 \<mapsto> 1)\<rparr>, view')"
    using h a sa keep by (simp add: on_modified_def demo_listener_def)
  with r show ?thesis by simp
qed

text \<open>
  C3. The handler \<open>on_modified\<close> can raise. In a JSX syntax the tracker over \<open><pq\<close> has
  offset 1; after \<open>)\<close> is typed between \<open>p\<close> and \<open>q\<close> the reconciled tracker covers the
  region from 4 to 8 and holds the invalid text \<open>p)q\<close>, shorter than the region. With the
  caret at 7, \<open>should_stop_tracking\<close> reads the text at index 3 and raises \<open>IndexError\<close>,
  and \<open>on_modified\<close> lets the exception through.
\<close>

theorem on_modified_raises_index_error:
  "should_stop_tracking (demo_tracker (Region 4 8) ''p)q'' True False 1) 7 = Inl IndexError \<and>
   on_modified
     (demo_env\<lparr>is_jsx_at := (\<lambda>view pos. True),
               reconcile := (\<lambda>view. Some (demo_tracker (Region 4 8) ''p)q'' True False 1))\<rparr>)
     7 (demo_listener (Some 6))
     (demo_view ''    <p)q'' [Region 7 7] (Some (demo_tracker (Region 4 7) ''pq'' False False 1)))
     = Inl IndexError"
proof -
  have s: "should_stop_tracking (demo_tracker (Region 4 8) ''p)q'' True False 1) 7 = Inl IndexError"
    by (simp add: should_stop_tracking_def has_line_break_def
      region_begin_def region_end_def trailing_pairs_walk.simps str_index_def)
  then show ?thesis
    by (simp add: on_modified_def handle_change_def demo_env_def demo_listener_def)
qed

end
